theory Spec2Isabelle
  imports Main
begin

section \<open>Parsed JSON values\<close>

text \<open>
  The notebook "Making Pandas DataFrames from API Requests" obtains
  \<^verbatim>\<open>earthquake_json = response.json()\<close>: a tree of Python dicts, lists, strings,
  ints, floats, booleans and \<^verbatim>\<open>None\<close>. A dict is kept as the list of its items in insertion
  order (the keys of a dict are pairwise different). No operation modelled here looks inside a
  float, so the float type is a parameter \<open>'f\<close>.
\<close>

datatype 'f json =
    JNull
  | JBool bool
  | JInt int
  | JFloat 'f
  | JStr string
  | JArr "'f json list"
  | JObj "(string \<times> 'f json) list"

text \<open>
  The exceptions of a subscription \<^verbatim>\<open>v[k]\<close> with a string key: a dict without the key raises
  \<^verbatim>\<open>KeyError(k)\<close>; a list, a string, a number, a boolean and \<^verbatim>\<open>None\<close> raise
  \<^verbatim>\<open>TypeError\<close>.
\<close>

datatype py_error = KeyError string | TypeError

definition getitem :: "'f json \<Rightarrow> string \<Rightarrow> py_error + 'f json" where
  "getitem v k =
     (case v of
        JObj kvs \<Rightarrow> (case map_of kvs k of None \<Rightarrow> Inl (KeyError k) | Some x \<Rightarrow> Inr x)
      | _ \<Rightarrow> Inl TypeError)"

text \<open>\<^verbatim>\<open>k in v\<close> for a dict \<open>v\<close>; a value that is not a dict has no field.\<close>

definition has_field :: "string \<Rightarrow> 'f json \<Rightarrow> bool" where
  "has_field k v = (case v of JObj kvs \<Rightarrow> k \<in> set (map fst kvs) | _ \<Rightarrow> False)"

definition is_document :: "'f json \<Rightarrow> bool" where
  "is_document v = (case v of JObj kvs \<Rightarrow> True | _ \<Rightarrow> False)"

section \<open>Extracting the properties of every feature\<close>

text \<open>
  \<^verbatim>\<open>
  earthquake_properties_data = [
      quake['properties'] for quake in earthquake_json['features']
  ]
  \<close>
  The comprehension visits the features from left to right. The first subscription that
  raises ends it: the exception reaches the caller and no list is bound.
\<close>

fun earthquake_properties_data :: "'f json list \<Rightarrow> py_error + 'f json list" where
  "earthquake_properties_data [] = Inr []"
| "earthquake_properties_data (quake # features) =
     (case getitem quake ''properties'' of
        Inl e \<Rightarrow> Inl e
      | Inr p \<Rightarrow>
          (case earthquake_properties_data features of
             Inl e \<Rightarrow> Inl e
           | Inr ps \<Rightarrow> Inr (p # ps)))"

section \<open>A table built from row mappings\<close>

text \<open>
  \<^verbatim>\<open>df = pd.DataFrame(earthquake_properties_data)\<close> hands the extracted rows to the
  constructor of pandas' \<^verbatim>\<open>DataFrame\<close>. pandas is a library the notebooks import; none of
  its code is among the repository's files. The definitions of this section are therefore
  written from the specification of the table (sections 3 and 4.3), not from code.
\<close>

text \<open>
  Modelled from the spec: the cell of a table, which pandas' \<^verbatim>\<open>DataFrame\<close> (not in the
  repository) stores. A cell holds a value or the missing-value sentinel, "a distinguished
  marker denoting no data, distinct from any valid domain value".
\<close>

datatype 'v cell = Missing | Present 'v

text \<open>
  Modelled from the spec: the table that pandas' \<^verbatim>\<open>DataFrame\<close> (not in the repository)
  implements: "a mapping from column-name to Series, where every Series shares one common
  row Index". The columns are kept in the order of the column Index; the row Index of a table
  built without one is "a dense integer range starting at 0".
\<close>

record 'v ColumnarTable =
  row_index :: "nat list"
  data :: "(string \<times> 'v cell list) list"

text \<open>
  Modelled from the spec: \<^verbatim>\<open>columns()\<close> of pandas' \<^verbatim>\<open>DataFrame\<close> (not in the
  repository), which "exposes the column Index".
\<close>

definition columns :: "'v ColumnarTable \<Rightarrow> string list" where
  "columns t = map fst (data t)"

text \<open>
  Modelled from the spec: the selection of one column of pandas' \<^verbatim>\<open>DataFrame\<close> (not in
  the repository) by its name; a name that is not a column selects nothing.
\<close>

definition column :: "'v ColumnarTable \<Rightarrow> string \<Rightarrow> 'v cell list option" where
  "column t c = map_of (data t) c"

text \<open>
  Modelled from the spec: the column set that pandas' \<^verbatim>\<open>DataFrame\<close> constructor (not in
  the repository) derives from rows: the "union of keys across all row-mappings, in first-seen
  order". The keys are visited row by row, each row's keys in the order of the row; a key
  joins the end of the columns the first time it is seen.
\<close>

fun add_keys :: "string list \<Rightarrow> string list \<Rightarrow> string list" where
  "add_keys seen [] = seen"
| "add_keys seen (k # ks) = add_keys (if k \<in> set seen then seen else seen @ [k]) ks"

definition union_keys :: "(string \<times> 'v) list list \<Rightarrow> string list" where
  "union_keys rows = fold (\<lambda>row seen. add_keys seen (map fst row)) rows []"

text \<open>
  Modelled from the spec: the cell that pandas' \<^verbatim>\<open>DataFrame\<close> constructor (not in the
  repository) stores for one row and one column: "any row missing a key gets a missing-value
  sentinel for that column".
\<close>

definition cell_of :: "(string \<times> 'v) list \<Rightarrow> string \<Rightarrow> 'v cell" where
  "cell_of row c = (case map_of row c of None \<Rightarrow> Missing | Some v \<Rightarrow> Present v)"

text \<open>
  Modelled from the spec: \<^verbatim>\<open>construct(rows: sequence<mapping<name, scalar>>)\<close>, which is
  pandas' \<^verbatim>\<open>DataFrame\<close> constructor applied to a list of dicts (not in the repository). A
  row mapping is the list of its items in insertion order. The specification names no failure
  of this construction (a missing key "is NOT an error"), so it is a total function.
\<close>

definition construct_rows :: "(string \<times> 'v) list list \<Rightarrow> 'v ColumnarTable" where
  "construct_rows rows =
     \<lparr>row_index = [0..<length rows],
      data = map (\<lambda>c. (c, map (\<lambda>row. cell_of row c) rows)) (union_keys rows)\<rparr>"

text \<open>
  The place at which a key is first seen: its first position in the sequence of all keys, the
  rows taken in order and the keys of a row in the row's order.
\<close>

definition first_index :: "'a \<Rightarrow> 'a list \<Rightarrow> nat" where
  "first_index c ks = length (takeWhile (\<lambda>k. k \<noteq> c) ks)"

definition first_seen :: "string \<Rightarrow> (string \<times> 'v) list list \<Rightarrow> nat" where
  "first_seen c rows = first_index c (concat (map (map fst) rows))"

text \<open>
  The invariant of the loop over the keys: the columns collected so far are exactly the keys
  read so far, without repetition, in the order in which they were first seen.
\<close>

definition seen_inv :: "string list \<Rightarrow> string list \<Rightarrow> bool" where
  "seen_inv seen done \<longleftrightarrow>
     distinct seen \<and> set seen = set done \<and>
     (\<forall>i j. i < j \<and> j < length seen \<longrightarrow>
        first_index (seen ! i) done < first_index (seen ! j) done)"

section \<open>Properties of the extraction\<close>

lemma getitem_Inr_iff: "(\<exists>p. getitem v k = Inr p) \<longleftrightarrow> has_field k v"
proof (cases v)
  case (JObj kvs)
  have "(\<exists>p. map_of kvs k = Some p) \<longleftrightarrow> k \<in> fst ` set kvs"
    by (metis map_of_eq_None_iff not_None_eq)
  then show ?thesis
    using JObj by (auto simp: getitem_def has_field_def split: option.splits)
qed (simp_all add: getitem_def has_field_def)

lemma getitem_document_error:
  "is_document v \<Longrightarrow> getitem v k = Inl e \<Longrightarrow> e = KeyError k"
  by (cases v) (auto simp: getitem_def is_document_def split: option.splits)

lemma getitem_Inr_stored:
  "getitem v k = Inr p \<Longrightarrow> \<exists>kvs. v = JObj kvs \<and> map_of kvs k = Some p"
  by (cases v) (auto simp: getitem_def split: option.splits)

lemma getitem_Inl_kind:
  "getitem v k = Inl e \<Longrightarrow> e = (if is_document v then KeyError k else TypeError)"
  by (cases v) (auto simp: getitem_def is_document_def split: option.splits)

lemma extraction_fails_iff:
  "(\<exists>e. earthquake_properties_data features = Inl e)
     \<longleftrightarrow> (\<exists>quake \<in> set features. \<not> has_field ''properties'' quake)"
proof (induction features)
  case Nil
  show ?case by simp
next
  case (Cons quake features)
  show ?case
  proof (cases "getitem quake ''properties''")
    case (Inl e)
    then have "\<not> has_field ''properties'' quake"
      using getitem_Inr_iff [of quake "''properties''"] by auto
    with Inl show ?thesis by auto
  next
    case (Inr p)
    then have "has_field ''properties'' quake"
      using getitem_Inr_iff [of quake "''properties''"] by auto
    with Inr Cons.IH show ?thesis
      by (auto split: sum.splits)
  qed
qed

lemma extraction_error_of_documents:
  "\<forall>quake \<in> set features. is_document quake \<Longrightarrow>
   earthquake_properties_data features = Inl e \<Longrightarrow> e = KeyError ''properties''"
proof (induction features)
  case Nil
  then show ?case by simp
next
  case (Cons quake features)
  then show ?case
    by (auto split: sum.splits dest: getitem_document_error)
qed

lemma extraction_result:
  "earthquake_properties_data features = Inr ps \<Longrightarrow>
   length ps = length features \<and>
   (\<forall>i < length features. getitem (features ! i) ''properties'' = Inr (ps ! i))"
proof (induction features arbitrary: ps)
  case Nil
  then show ?case by simp
next
  case (Cons quake features)
  from Cons.prems obtain p ps' where
    p: "getitem quake ''properties'' = Inr p" and
    ps': "earthquake_properties_data features = Inr ps'" and
    ps: "ps = p # ps'"
    by (auto split: sum.splits)
  from Cons.IH [OF ps'] have
    len: "length ps' = length features" and
    nth: "\<forall>i < length features. getitem (features ! i) ''properties'' = Inr (ps' ! i)"
    by simp_all
  show ?case
  proof (intro conjI allI impI)
    show "length ps = length (quake # features)"
      using len ps by simp
  next
    fix i
    assume "i < length (quake # features)"
    then show "getitem ((quake # features) ! i) ''properties'' = Inr (ps ! i)"
      using p nth ps by (cases i) simp_all
  qed
qed

lemma extraction_halts_at_first_error:
  "\<forall>quake \<in> set before. has_field ''properties'' quake \<Longrightarrow>
   getitem quake ''properties'' = Inl e \<Longrightarrow>
   earthquake_properties_data (before @ quake # rest) = Inl e"
proof (induction before)
  case Nil
  then show ?case by simp
next
  case (Cons b before)
  from Cons.prems(1) have "has_field ''properties'' b" by simp
  then obtain p where "getitem b ''properties'' = Inr p"
    using getitem_Inr_iff [of b "''properties''"] by auto
  moreover have "earthquake_properties_data (before @ quake # rest) = Inl e"
    using Cons by simp
  ultimately show ?case by simp
qed

section \<open>The extraction contract\<close>

text \<open>
  Claim C3. The extraction applied to a sequence of records fails if and only if some record
  lacks the field \<^verbatim>\<open>properties\<close>. When the records are documents (dicts) the failure is
  the \<^verbatim>\<open>KeyError\<close> of that field. The failure is the error of the first record without
  the field, whatever follows it: \<^verbatim>\<open>KeyError\<close> of the field when that record is a dict,
  \<^verbatim>\<open>TypeError\<close> when it is not; and a failure carries no list at all. When every record
  has the field, the result has one entry per record, in the order of the records; each record
  is a dict, and the entry is the very value that the dict stores under the key
  \<^verbatim>\<open>properties\<close>, so with every key that value has.
\<close>

theorem extraction_contract:
  "((\<exists>e. earthquake_properties_data features = Inl e)
      \<longleftrightarrow> (\<exists>quake \<in> set features. \<not> has_field ''properties'' quake))
   \<and> ((\<forall>quake \<in> set features. is_document quake) \<longrightarrow>
        (\<exists>quake \<in> set features. \<not> has_field ''properties'' quake) \<longrightarrow>
        earthquake_properties_data features = Inl (KeyError ''properties''))
   \<and> ((\<forall>quake \<in> set before. has_field ''properties'' quake) \<longrightarrow>
        \<not> has_field ''properties'' quake' \<longrightarrow>
        (\<exists>e. getitem quake' ''properties'' = Inl e \<and>
             e = (if is_document quake' then KeyError ''properties'' else TypeError) \<and>
             earthquake_properties_data (before @ quake' # rest) = Inl e))
   \<and> ((\<forall>quake \<in> set features. has_field ''properties'' quake) \<longrightarrow>
        (\<exists>ps. earthquake_properties_data features = Inr ps \<and>
              length ps = length features \<and>
              (\<forall>i < length features.
                 getitem (features ! i) ''properties'' = Inr (ps ! i) \<and>
                 (\<exists>kvs. features ! i = JObj kvs \<and>
                        map_of kvs ''properties'' = Some (ps ! i)))))"
proof (intro conjI impI)
  show "(\<exists>e. earthquake_properties_data features = Inl e)
          \<longleftrightarrow> (\<exists>quake \<in> set features. \<not> has_field ''properties'' quake)"
    by (rule extraction_fails_iff)
next
  assume docs: "\<forall>quake \<in> set features. is_document quake"
    and lacks: "\<exists>quake \<in> set features. \<not> has_field ''properties'' quake"
  from lacks obtain e where e: "earthquake_properties_data features = Inl e"
    using extraction_fails_iff [of features] by blast
  with docs have "e = KeyError ''properties''"
    by (rule extraction_error_of_documents)
  with e show "earthquake_properties_data features = Inl (KeyError ''properties'')"
    by simp
next
  assume ok: "\<forall>quake \<in> set before. has_field ''properties'' quake"
    and lacks: "\<not> has_field ''properties'' quake'"
  from lacks obtain e where e: "getitem quake' ''properties'' = Inl e"
    using getitem_Inr_iff [of quake' "''properties''"]
    by (cases "getitem quake' ''properties''") auto
  from e have kind: "e = (if is_document quake' then KeyError ''properties'' else TypeError)"
    by (rule getitem_Inl_kind)
  from ok e have "earthquake_properties_data (before @ quake' # rest) = Inl e"
    by (rule extraction_halts_at_first_error)
  with e kind
  show "\<exists>e. getitem quake' ''properties'' = Inl e \<and>
             e = (if is_document quake' then KeyError ''properties'' else TypeError) \<and>
             earthquake_properties_data (before @ quake' # rest) = Inl e"
    by blast
next
  assume ok: "\<forall>quake \<in> set features. has_field ''properties'' quake"
  then have "\<not> (\<exists>e. earthquake_properties_data features = Inl e)"
    using extraction_fails_iff [of features] by blast
  then obtain ps where ps: "earthquake_properties_data features = Inr ps"
    by (cases "earthquake_properties_data features") auto
  from extraction_result [OF ps] have
    len: "length ps = length features" and
    nth: "\<forall>i < length features. getitem (features ! i) ''properties'' = Inr (ps ! i)"
    by simp_all
  have "getitem (features ! i) ''properties'' = Inr (ps ! i) \<and>
        (\<exists>kvs. features ! i = JObj kvs \<and> map_of kvs ''properties'' = Some (ps ! i))"
    if "i < length features" for i
  proof -
    from nth that have g: "getitem (features ! i) ''properties'' = Inr (ps ! i)"
      by simp
    from getitem_Inr_stored [OF g] g show ?thesis by simp
  qed
  with ps len
  show "\<exists>ps. earthquake_properties_data features = Inr ps \<and>
              length ps = length features \<and>
              (\<forall>i < length features.
                 getitem (features ! i) ''properties'' = Inr (ps ! i) \<and>
                 (\<exists>kvs. features ! i = JObj kvs \<and>
                        map_of kvs ''properties'' = Some (ps ! i)))"
    by blast
qed

text \<open>
  The contract at three concrete lists of features, a float kept as its decimal text: two
  complete features in the form of the recorded response; a feature without
  \<^verbatim>\<open>properties\<close> between two complete ones; and a \<^verbatim>\<open>None\<close> in the place of a
  feature, where the subscription raises \<^verbatim>\<open>TypeError\<close> before the next feature, which has
  no \<^verbatim>\<open>properties\<close> either, is looked at.
\<close>

theorem extraction_contract_witness:
  "earthquake_properties_data
     [JObj [(''type'', JStr ''Feature''),
            (''properties'', JObj [(''mag'', JFloat ''4.2''), (''felt'', JNull),
                                  (''tsunami'', JInt 0), (''nst'', JInt 18)]),
            (''id'', JStr ''us7000q9mu'')],
      JObj [(''type'', JStr ''Feature''),
            (''properties'', JObj [(''mag'', JFloat ''0.53''), (''nst'', JInt 13)]),
            (''id'', JStr ''ci41008999'')]]
     = Inr [JObj [(''mag'', JFloat ''4.2''), (''felt'', JNull),
                  (''tsunami'', JInt 0), (''nst'', JInt 18)],
            JObj [(''mag'', JFloat ''0.53''), (''nst'', JInt 13)]]
   \<and> earthquake_properties_data
     [JObj [(''properties'', JObj [(''mag'', JFloat ''4.2'')])],
      JObj [(''id'', JStr ''us7000q9mt'')],
      JObj [(''properties'', JObj [(''mag'', JFloat ''3.8'')])]]
     = Inl (KeyError ''properties'')
   \<and> earthquake_properties_data
     [JObj [(''properties'', JObj [(''mag'', JFloat ''4.2'')])],
      JNull,
      JObj [(''id'', JStr ''us7000q9mt'')]]
     = Inl TypeError"
proof -
  let ?p1 = "JObj [(''mag'', JFloat ''4.2''), (''felt'', JNull),
                   (''tsunami'', JInt 0), (''nst'', JInt 18)]"
  let ?p2 = "JObj [(''mag'', JFloat ''0.53''), (''nst'', JInt 13)]"
  let ?q1 = "JObj [(''type'', JStr ''Feature''), (''properties'', ?p1),
                   (''id'', JStr ''us7000q9mu'')]"
  let ?q2 = "JObj [(''type'', JStr ''Feature''), (''properties'', ?p2),
                   (''id'', JStr ''ci41008999'')]"
  let ?good = "[?q1, ?q2]"
  let ?b1 = "JObj [(''properties'', JObj [(''mag'', JFloat ''4.2'')])]"
  let ?b2 = "JObj [(''id'', JStr ''us7000q9mt'')] :: string json"
  let ?b3 = "JObj [(''properties'', JObj [(''mag'', JFloat ''3.8'')])]"
  let ?bad = "[?b1, ?b2, ?b3]"
  have all_good: "\<forall>quake \<in> set ?good. has_field ''properties'' quake"
    by (simp add: has_field_def)
  have docs: "\<forall>quake \<in> set ?bad. is_document quake"
    by (simp add: is_document_def)
  have lacks: "\<exists>quake \<in> set ?bad. \<not> has_field ''properties'' quake"
    by (simp add: has_field_def)
  have before_ok: "\<forall>quake \<in> set [?b1]. has_field ''properties'' quake"
    by (simp add: has_field_def)
  have null_lacks: "\<not> has_field ''properties'' (JNull :: string json)"
    by (simp add: has_field_def)
  from extraction_contract [of ?good "[]" ?b2 "[]"] all_good
  obtain ps where ps: "earthquake_properties_data ?good = Inr ps"
    and len: "length ps = length ?good"
    and nth: "\<forall>i < length ?good.
                \<exists>kvs. ?good ! i = JObj kvs \<and> map_of kvs ''properties'' = Some (ps ! i)"
    by blast
  have "\<exists>kvs. ?q1 = JObj kvs \<and> map_of kvs ''properties'' = Some (ps ! 0)"
    using nth [rule_format, of 0] by simp
  moreover have "\<exists>kvs. ?q2 = JObj kvs \<and> map_of kvs ''properties'' = Some (ps ! 1)"
    using nth [rule_format, of 1] by simp
  ultimately have "ps ! 0 = ?p1" and "ps ! 1 = ?p2"
    by auto
  moreover from len have "ps = [ps ! 0, ps ! 1]"
    by (cases ps; cases "tl ps") auto
  ultimately have "ps = [?p1, ?p2]" by simp
  with ps have good: "earthquake_properties_data ?good = Inr [?p1, ?p2]" by simp
  from extraction_contract [of ?bad "[]" ?b2 "[]"] docs lacks
  have bad: "earthquake_properties_data ?bad = Inl (KeyError ''properties'')"
    by blast
  from extraction_contract [of "[]" "[?b1]" JNull "[?b2]"] before_ok null_lacks
  obtain e where e: "getitem (JNull :: string json) ''properties'' = Inl e"
    and halted: "earthquake_properties_data ([?b1] @ JNull # [?b2]) = Inl e"
    and kind: "e = (if is_document (JNull :: string json)
                    then KeyError ''properties'' else TypeError)"
    by blast
  from kind have "e = TypeError" by (simp add: is_document_def)
  with halted have null: "earthquake_properties_data [?b1, JNull, ?b2] = Inl TypeError"
    by simp
  from good bad null show ?thesis by simp
qed

section \<open>The table built from row mappings\<close>

lemma first_index_less: "c \<in> set ks \<Longrightarrow> first_index c ks < length ks"
  unfolding first_index_def by (induction ks) auto

lemma first_index_append_in: "c \<in> set ks \<Longrightarrow> first_index c (ks @ ls) = first_index c ks"
  unfolding first_index_def by (induction ks) auto

lemma first_index_append_new: "c \<notin> set ks \<Longrightarrow> first_index c (ks @ [c]) = length ks"
  unfolding first_index_def by (induction ks) auto

lemma seen_inv_step:
  assumes "seen_inv seen done"
  shows "seen_inv (if k \<in> set seen then seen else seen @ [k]) (done @ [k])"
proof (cases "k \<in> set seen")
  case True
  from assms have d: "distinct seen" and s: "set seen = set done"
    and o: "\<And>i j. i < j \<Longrightarrow> j < length seen \<Longrightarrow> first_index (seen ! i) done < first_index (seen ! j) done"
    unfolding seen_inv_def by auto
  have "first_index (seen ! i) (done @ [k]) < first_index (seen ! j) (done @ [k])"
    if "i < j" "j < length seen" for i j
  proof -
    have "seen ! i \<in> set done" "seen ! j \<in> set done"
      using that s nth_mem [of i seen] nth_mem [of j seen] by auto
    then show ?thesis
      using o [OF that] by (simp add: first_index_append_in)
  qed
  with d s True show ?thesis
    unfolding seen_inv_def by auto
next
  case False
  from assms have d: "distinct seen" and s: "set seen = set done"
    and o: "\<And>i j. i < j \<Longrightarrow> j < length seen \<Longrightarrow> first_index (seen ! i) done < first_index (seen ! j) done"
    unfolding seen_inv_def by auto
  have "first_index ((seen @ [k]) ! i) (done @ [k]) < first_index ((seen @ [k]) ! j) (done @ [k])"
    if "i < j" "j < length (seen @ [k])" for i j
  proof (cases "j < length seen")
    case True
    then have "seen ! i \<in> set done" "seen ! j \<in> set done"
      using that s nth_mem [of i seen] nth_mem [of j seen] by auto
    then show ?thesis
      using True that o [of i j] by (simp add: nth_append first_index_append_in)
  next
    case F: False
    then have j: "j = length seen" using that by simp
    then have "seen ! i \<in> set done" using that s nth_mem [of i seen] by auto
    then have "first_index (seen ! i) (done @ [k]) < length done"
      by (simp add: first_index_append_in first_index_less)
    moreover have "first_index k (done @ [k]) = length done"
      using False s by (simp add: first_index_append_new)
    ultimately show ?thesis using j that by (simp add: nth_append)
  qed
  with d s False show ?thesis
    unfolding seen_inv_def by auto
qed

lemma seen_inv_add_keys:
  "seen_inv seen done \<Longrightarrow> seen_inv (add_keys seen ks) (done @ ks)"
proof (induction ks arbitrary: seen "done")
  case Nil
  then show ?case by simp
next
  case (Cons k ks)
  from seen_inv_step [OF Cons.prems, of k]
  have "seen_inv (add_keys (if k \<in> set seen then seen else seen @ [k]) ks) ((done @ [k]) @ ks)"
    by (rule Cons.IH)
  then show ?case by simp
qed

lemma seen_inv_fold:
  "seen_inv seen done \<Longrightarrow>
   seen_inv (fold (\<lambda>row seen. add_keys seen (map fst row)) rows seen)
            (done @ concat (map (map fst) rows))"
proof (induction rows arbitrary: seen "done")
  case Nil
  then show ?case by simp
next
  case (Cons row rows)
  from seen_inv_add_keys [OF Cons.prems, of "map fst row"]
  have "seen_inv (fold (\<lambda>row seen. add_keys seen (map fst row)) rows (add_keys seen (map fst row)))
          ((done @ map fst row) @ concat (map (map fst) rows))"
    by (rule Cons.IH)
  then show ?case by simp
qed

lemma seen_inv_union_keys: "seen_inv (union_keys rows) (concat (map (map fst) rows))"
  using seen_inv_fold [of "[]" "[]" rows]
  by (simp add: union_keys_def seen_inv_def)


lemma columns_construct_rows: "columns (construct_rows rows) = union_keys rows"
  by (simp add: columns_def construct_rows_def comp_def)

lemma column_construct_rows:
  "c \<in> set (union_keys rows) \<Longrightarrow>
   column (construct_rows rows) c = Some (map (\<lambda>row. cell_of row c) rows)"
proof -
  assume c: "c \<in> set (union_keys rows)"
  have "map_of (map (\<lambda>c. (c, f c)) cs) c = Some (f c)" if "c \<in> set cs" for cs and f :: "string \<Rightarrow> 'b"
    using that by (induction cs) auto
  from this [OF c] show ?thesis
    by (simp add: column_def construct_rows_def)
qed

text \<open>
  Claim C2. For every sequence of row mappings, whatever keys each row has, the construction
  yields a table (it is a total function): its columns are the union of the keys of all rows,
  each once, ordered by where a key is first seen; the row Index is the range of the rows;
  every column has one cell per row; the cell of a row that lacks the column's key is the
  missing-value sentinel, and the cell of a row that has the key holds the row's value.
\<close>

theorem construct_rows_columns_and_cells:
  "distinct (columns (construct_rows rows))
   \<and> set (columns (construct_rows rows)) = (\<Union>row \<in> set rows. fst ` set row)
   \<and> (\<forall>i j. i < j \<and> j < length (columns (construct_rows rows)) \<longrightarrow>
          first_seen (columns (construct_rows rows) ! i) rows
            < first_seen (columns (construct_rows rows) ! j) rows)
   \<and> row_index (construct_rows rows) = [0..<length rows]
   \<and> (\<forall>c \<in> set (columns (construct_rows rows)).
          \<exists>vs. column (construct_rows rows) c = Some vs \<and> length vs = length rows \<and>
            (\<forall>i < length rows.
               (c \<notin> fst ` set (rows ! i) \<longrightarrow> vs ! i = Missing) \<and>
               (\<forall>v. map_of (rows ! i) c = Some v \<longrightarrow> vs ! i = Present v)))"
proof -
  have inv: "seen_inv (union_keys rows) (concat (map (map fst) rows))"
    by (rule seen_inv_union_keys)
  have 1: "distinct (columns (construct_rows rows))"
    using inv by (simp add: columns_construct_rows seen_inv_def)
  have 2: "set (columns (construct_rows rows)) = (\<Union>row \<in> set rows. fst ` set row)"
    using inv by (simp add: columns_construct_rows seen_inv_def)
  have 3: "\<forall>i j. i < j \<and> j < length (columns (construct_rows rows)) \<longrightarrow>
          first_seen (columns (construct_rows rows) ! i) rows
            < first_seen (columns (construct_rows rows) ! j) rows"
    using inv by (simp add: columns_construct_rows seen_inv_def first_seen_def)
  have 4: "row_index (construct_rows rows) = [0..<length rows]"
    by (simp add: construct_rows_def)
  have 5: "\<exists>vs. column (construct_rows rows) c = Some vs \<and> length vs = length rows \<and>
            (\<forall>i < length rows.
               (c \<notin> fst ` set (rows ! i) \<longrightarrow> vs ! i = Missing) \<and>
               (\<forall>v. map_of (rows ! i) c = Some v \<longrightarrow> vs ! i = Present v))"
    if "c \<in> set (columns (construct_rows rows))" for c
  proof -
    from that have "c \<in> set (union_keys rows)"
      by (simp add: columns_construct_rows)
    then have "column (construct_rows rows) c = Some (map (\<lambda>row. cell_of row c) rows)"
      by (rule column_construct_rows)
    moreover have "cell_of row c = Missing" if "c \<notin> fst ` set row" for row :: "(string \<times> 'a) list"
    proof -
      from that have "map_of row c = None" by (simp add: map_of_eq_None_iff)
      then show ?thesis by (simp add: cell_of_def)
    qed
    moreover have "cell_of row c = Present v" if "map_of row c = Some v" for row :: "(string \<times> 'a) list" and v
      using that by (simp add: cell_of_def)
    ultimately show ?thesis by simp
  qed
  from 1 2 3 4 5 show ?thesis by blast
qed

text \<open>
  The table of the rows \<^verbatim>\<open>[{"a": 1, "b": 2}, {"a": 3}]\<close>: columns \<^verbatim>\<open>a\<close> and \<^verbatim>\<open>b\<close>, and
  the second row's cell of \<^verbatim>\<open>b\<close> is the missing-value sentinel.
\<close>

theorem construct_rows_witness:
  "columns (construct_rows [[(''a'', 1::int), (''b'', 2)], [(''a'', 3)]]) = [''a'', ''b'']
   \<and> column (construct_rows [[(''a'', 1::int), (''b'', 2)], [(''a'', 3)]]) ''b''
       = Some [Present 2, Missing]"
proof -
  let ?rows = "[[(''a'', 1::int), (''b'', 2)], [(''a'', 3)]]"
  have cols: "columns (construct_rows ?rows) = [''a'', ''b'']"
    by (simp add: columns_construct_rows union_keys_def)
  from construct_rows_columns_and_cells [of ?rows] cols
  obtain vs where vs: "column (construct_rows ?rows) ''b'' = Some vs"
    and len: "length vs = 2"
    and cells: "\<forall>i < length ?rows.
       (''b'' \<notin> fst ` set (?rows ! i) \<longrightarrow> vs ! i = Missing) \<and>
       (\<forall>v. map_of (?rows ! i) ''b'' = Some v \<longrightarrow> vs ! i = Present v)"
    by auto
  have "vs ! 0 = Present 2"
    using cells [rule_format, of 0] by simp
  moreover have "vs ! 1 = Missing"
    using cells [rule_format, of 1] by simp
  moreover from len have "vs = [vs ! 0, vs ! 1]"
    by (cases vs; cases "tl vs") auto
  ultimately have "vs = [Present 2, Missing]" by simp
  with vs cols show ?thesis by simp
qed

end
